theory Spec2Isabelle
  imports Main "HOL-Library.AList"
begin

section \<open>JavaScript values\<close>

text \<open>
  The program of \<^verbatim>\<open>dbd-shrine-api/index.js\<close> works on values parsed from JSON and
  reads their fields defensively, so the embedding has one type of JavaScript values.
  An object is the list of its own properties in the order in which they were
  created; its keys are pairwise distinct, as in every JavaScript object, and a
  property is looked up with \<open>map_of\<close>. A number is given by the string that
  \<^verbatim>\<open>Number.prototype.toString\<close> answers for it (\<^verbatim>\<open>12\<close>, \<^verbatim>\<open>0.5\<close>,
  \<^verbatim>\<open>1e+21\<close>): the program converts numbers to strings and tests them for
  truth, and does nothing else with them. Strings are lists of characters.

  \<^verbatim>\<open>scripts/update-shrine.js\<close> holds the same \<^verbatim>\<open>fetchFromSources\<close>,
  \<^verbatim>\<open>fetchPerkCatalog\<close>, \<^verbatim>\<open>mapPerksWithCatalog\<close>, \<^verbatim>\<open>extractImage\<close>,
  \<^verbatim>\<open>normalizeImageUrl\<close> and \<^verbatim>\<open>enrichPayload\<close>, word for word. The calls of
  \<^verbatim>\<open>console.log\<close> are left out.
\<close>

datatype jv =
    JUndef
  | JNull
  | JBool bool
  | JNum string
  | JStr string
  | JArr "jv list"
  | JObj "(string \<times> jv) list"

text \<open>
  A thrown exception is a value. \<open>TypeError\<close> is what the engine throws when a
  property of \<^verbatim>\<open>null\<close> or \<^verbatim>\<open>undefined\<close> is read or when something that is
  not a function is called; \<open>Error m\<close> is \<^verbatim>\<open>new Error(m)\<close>.
\<close>

datatype err = TypeError | Error string

text \<open>
  \<^verbatim>\<open>Boolean(v)\<close>, the test behind \<^verbatim>\<open>!v\<close>, \<^verbatim>\<open>v ? a : b\<close> and \<^verbatim>\<open>a || b\<close>. The
  numbers that are false are \<^verbatim>\<open>0\<close>, \<^verbatim>\<open>-0\<close> (both print as \<^verbatim>\<open>0\<close>) and
  \<^verbatim>\<open>NaN\<close>.
\<close>

fun truthy :: "jv \<Rightarrow> bool" where
  "truthy JUndef = False"
| "truthy JNull = False"
| "truthy (JBool b) = b"
| "truthy (JNum n) = (n \<noteq> ''0'' \<and> n \<noteq> ''NaN'')"
| "truthy (JStr s) = (s \<noteq> [])"
| "truthy (JArr xs) = True"
| "truthy (JObj kvs) = True"

text \<open>\<^verbatim>\<open>a || b\<close> on values whose evaluation cannot throw.\<close>

definition jor :: "jv \<Rightarrow> jv \<Rightarrow> jv" where
  "jor a b = (if truthy a then a else b)"

definition nullish :: "jv \<Rightarrow> bool" where
  "nullish v = (v = JUndef \<or> v = JNull)"

text \<open>
  \<^verbatim>\<open>v?.k\<close>: the own property \<open>k\<close> of an object, \<^verbatim>\<open>undefined\<close> otherwise. The
  program reads only the names \<^verbatim>\<open>id\<close>, \<^verbatim>\<open>name\<close>, \<^verbatim>\<open>icon\<close>, ..., none of which
  is defined on the prototype of an array, a string, a number or a boolean, so for
  every value that is neither \<^verbatim>\<open>null\<close> nor \<^verbatim>\<open>undefined\<close> this is \<^verbatim>\<open>v.k\<close> too.
\<close>

fun fld :: "jv \<Rightarrow> string \<Rightarrow> jv" where
  "fld (JObj kvs) k = (case map_of kvs k of Some v \<Rightarrow> v | None \<Rightarrow> JUndef)"
| "fld v k = JUndef"

text \<open>\<^verbatim>\<open>v.k\<close>: reading a property of \<^verbatim>\<open>null\<close> or \<^verbatim>\<open>undefined\<close> throws.\<close>

definition getp :: "jv \<Rightarrow> string \<Rightarrow> err + jv" where
  "getp v k = (if nullish v then Inl TypeError else Inr (fld v k))"

subsection \<open>Strings\<close>

definition digit :: "nat \<Rightarrow> char" where
  "digit d = ''0123456789'' ! d"

function show_nat :: "nat \<Rightarrow> string" where
  "show_nat n = (if n < 10 then [digit n] else show_nat (n div 10) @ [digit (n mod 10)])"
  by pat_completeness auto
termination
  by (relation "measure (\<lambda>n. n)") auto

declare show_nat.simps [simp del]

text \<open>\<^verbatim>\<open>xs.join(sep)\<close> on strings.\<close>

fun join :: "string \<Rightarrow> string list \<Rightarrow> string" where
  "join sep [] = []"
| "join sep [x] = x"
| "join sep (x # y # ys) = x @ sep @ join sep (y # ys)"

text \<open>
  \<^verbatim>\<open>v.toString()\<close>. An array joins the strings of its elements with a comma, an
  element \<^verbatim>\<open>null\<close> or \<^verbatim>\<open>undefined\<close> giving the empty string. An object answers
  \<^verbatim>\<open>[object Object]\<close> through the inherited method, unless an own property
  \<^verbatim>\<open>toString\<close> shadows it: a value parsed from JSON is never a function, so the call
  throws.
\<close>

fun jsToString :: "jv \<Rightarrow> err + string"
  and joinElems :: "jv list \<Rightarrow> err + string" where
  "jsToString JUndef = Inl TypeError"
| "jsToString JNull = Inl TypeError"
| "jsToString (JBool b) = Inr (if b then ''true'' else ''false'')"
| "jsToString (JNum n) = Inr n"
| "jsToString (JStr s) = Inr s"
| "jsToString (JArr xs) = joinElems xs"
| "jsToString (JObj kvs) =
     (if map_of kvs ''toString'' = None then Inr ''[object Object]'' else Inl TypeError)"
| "joinElems [] = Inr []"
| "joinElems (x # xs) =
     (case (if x = JUndef \<or> x = JNull then Inr [] else jsToString x) of
        Inl e \<Rightarrow> Inl e
      | Inr s \<Rightarrow>
          (if xs = [] then Inr s
           else (case joinElems xs of Inl e \<Rightarrow> Inl e | Inr t \<Rightarrow> Inr (s @ '','' @ t))))"

text \<open>
  \<^verbatim>\<open>s.toLowerCase()\<close>. On a string of ASCII characters it replaces the letters
  \<^verbatim>\<open>A\<close> to \<^verbatim>\<open>Z\<close> and nothing else. What it answers for any other string is
  the case conversion of Unicode, which is the engine's and is taken as the parameter
  \<open>unicodeLower\<close>: everything below holds whatever that function is. A character
  above 127 stands for a character outside ASCII, or for a byte of one.
\<close>

definition lowerChar :: "char \<Rightarrow> char" where
  "lowerChar c =
     (case map_of (zip ''ABCDEFGHIJKLMNOPQRSTUVWXYZ'' ''abcdefghijklmnopqrstuvwxyz'') c of
        Some l \<Rightarrow> l
      | None \<Rightarrow> c)"

definition isAscii :: "string \<Rightarrow> bool" where
  "isAscii s = list_all (\<lambda>c. \<not> digit7 c) s"

definition toLowerCase :: "(string \<Rightarrow> string) \<Rightarrow> string \<Rightarrow> string" where
  "toLowerCase unicodeLower s = (if isAscii s then map lowerChar s else unicodeLower s)"

text \<open>\<^verbatim>\<open>s.startsWith(p)\<close>.\<close>

definition startsWith :: "string \<Rightarrow> string \<Rightarrow> bool" where
  "startsWith s p = (take (length p) s = p)"

subsection \<open>Object literals\<close>

text \<open>
  A key is an array index when it is the decimal numeral, without leading zeros, of a
  number below \<open>2\<^sup>3\<^sup>2 - 1\<close>.
\<close>

definition digitVal :: "char \<Rightarrow> int option" where
  "digitVal c = map_of (zip ''0123456789'' [0, 1, 2, 3, 4, 5, 6, 7, 8, 9]) c"

definition readNat :: "string \<Rightarrow> int" where
  "readNat k = foldl (\<lambda>n c. 10 * n + (case digitVal c of Some d \<Rightarrow> d | None \<Rightarrow> 0)) 0 k"

definition isIndex :: "string \<Rightarrow> bool" where
  "isIndex k =
     (k \<noteq> [] \<and> list_all (\<lambda>c. digitVal c \<noteq> None) k
      \<and> (if hd k = CHR ''0'' then k = ''0'' else True)
      \<and> readNat k < 4294967295)"

text \<open>
  The order in which the engine enumerates the own properties of an object: the keys
  that are array indices first, in ascending order, then the other keys in the order
  of their creation.
\<close>

definition enumOrder :: "(string \<times> jv) list \<Rightarrow> (string \<times> jv) list" where
  "enumOrder kvs =
     sort_key (\<lambda>p. readNat (fst p)) (filter (\<lambda>p. isIndex (fst p)) kvs)
     @ filter (\<lambda>p. \<not> isIndex (fst p)) kvs"

text \<open>
  The own enumerable properties that \<^verbatim>\<open>{...v}\<close> copies and \<^verbatim>\<open>Object.entries(v)\<close>
  lists, in that order: the properties of an object, the indexed elements of an
  array, the indexed characters of a string, and nothing for any other value.
\<close>

definition indexed :: "jv list \<Rightarrow> (string \<times> jv) list" where
  "indexed xs = zip (map show_nat [0..<length xs]) xs"

fun ownProps :: "jv \<Rightarrow> (string \<times> jv) list" where
  "ownProps (JObj kvs) = enumOrder kvs"
| "ownProps (JArr xs) = indexed xs"
| "ownProps (JStr s) = indexed (map (\<lambda>c. JStr [c]) s)"
| "ownProps v = []"

text \<open>
  \<^verbatim>\<open>{ <acc>, ...v }\<close> and \<^verbatim>\<open>{ <acc>, k: x }\<close>: a property that exists keeps its
  place and takes the new value, a new one is appended.
\<close>

definition setProp :: "string \<Rightarrow> jv \<Rightarrow> (string \<times> jv) list \<Rightarrow> (string \<times> jv) list" where
  "setProp k x acc = AList.update k x acc"

definition spread :: "(string \<times> jv) list \<Rightarrow> jv \<Rightarrow> (string \<times> jv) list" where
  "spread acc v = foldl (\<lambda>a (k, x). setProp k x a) acc (ownProps v)"

section \<open>The upstream network\<close>

text \<open>
  \<^verbatim>\<open>await fetch(url)\<close> either throws (\<open>NetFail\<close> with the message of the error) or
  gives a response with a status and a body; \<^verbatim>\<open>await response.json()\<close> either throws
  (\<open>Malformed\<close> with the message) or gives the parsed payload.
\<close>

datatype body = Malformed string | Parsed jv

datatype outcome = NetFail string | Response nat body

text \<open>\<^verbatim>\<open>response.ok\<close> of the Fetch API: the status is in the range 200 to 299.\<close>

definition ok :: "nat \<Rightarrow> bool" where
  "ok status = (200 \<le> status \<and> status \<le> 299)"

text \<open>
  The world outside the process: the log of the GET requests issued so far, and what
  the \<open>k\<close>-th request of the run answers when it asks for a given URL. Two requests
  for one URL may be answered differently.
\<close>

record world =
  requests :: "string list"
  answers :: "nat \<Rightarrow> string \<Rightarrow> outcome"

definition fetch :: "string \<Rightarrow> world \<Rightarrow> outcome \<times> world" where
  "fetch url w =
     (answers w (length (requests w)) url, w\<lparr>requests := requests w @ [url]\<rparr>)"

section \<open>Configuration\<close>

definition DEFAULT_SOURCES :: "string list" where
  "DEFAULT_SOURCES =
     [''https://dbd.tricky.lol/api/shrine'',
      ''https://dbd-api.herokuapp.com/shrineofsecrets?pretty=false&branch=live'']"

definition PERK_CATALOG_SOURCES :: "string list" where
  "PERK_CATALOG_SOURCES = [''https://dbd.tricky.lol/api/perks'']"

definition PERK_OVERRIDES :: "(string \<times> jv) list" where
  "PERK_OVERRIDES =
     [(''k28p02'', JObj [(''name'', JStr ''Darkness Revealed'')]),
      (''k32p02'', JObj [(''name'', JStr ''Forced Hesitation'')])]"

definition CACHE_TIME :: int where
  "CACHE_TIME = 1000 * 60 * 60 * 24 * 7"

text \<open>
  \<^verbatim>\<open>SOURCES.length ? SOURCES : DEFAULT_SOURCES\<close>, where \<open>SOURCES\<close> is the list read
  from the environment variable \<^verbatim>\<open>SHRINE_SOURCE\<close> when the process starts.
\<close>

definition candidates :: "string list \<Rightarrow> string list" where
  "candidates SOURCES = (if length SOURCES \<noteq> 0 then SOURCES else DEFAULT_SOURCES)"

section \<open>Images\<close>

definition normalizeImageUrl :: "jv \<Rightarrow> err + jv" where
  "normalizeImageUrl img =
     (if \<not> truthy img then Inr JNull
      else (case img of
              JStr s \<Rightarrow>
                if startsWith s ''http'' then Inr (JStr s)
                else Inr (JStr (''https://dbd.tricky.lol''
                                @ (if startsWith s ''/'' then [] else ''/'') @ s))
            | _ \<Rightarrow> Inl TypeError))"

text \<open>\<^verbatim>\<open>typeof v === "object"\<close>.\<close>

fun typeofObject :: "jv \<Rightarrow> bool" where
  "typeofObject (JObj kvs) = True"
| "typeofObject (JArr xs) = True"
| "typeofObject JNull = True"
| "typeofObject v = False"

text \<open>\<^verbatim>\<open>xs.find(Boolean)\<close>.\<close>

definition findTruthy :: "jv list \<Rightarrow> jv" where
  "findTruthy xs = (case List.find truthy xs of Some v \<Rightarrow> v | None \<Rightarrow> JUndef)"

definition extractImage :: "jv \<Rightarrow> jv" where
  "extractImage perk =
     (if \<not> truthy perk \<or> \<not> typeofObject perk then JNull
      else jor (findTruthy
                  [fld perk ''icon'', fld perk ''iconUrl'', fld perk ''iconPath'',
                   fld perk ''image'', fld perk ''perkImage'', fld perk ''perkIcon''])
               JNull)"

text \<open>\<^verbatim>\<open>xs.map(f)\<close> for a callback that may throw: the first exception ends the loop.\<close>

fun mapE :: "('a \<Rightarrow> err + 'b) \<Rightarrow> 'a list \<Rightarrow> err + 'b list" where
  "mapE f [] = Inr []"
| "mapE f (x # xs) =
     (case f x of
        Inl e \<Rightarrow> Inl e
      | Inr y \<Rightarrow> (case mapE f xs of Inl e \<Rightarrow> Inl e | Inr ys \<Rightarrow> Inr (y # ys)))"

text \<open>The two callbacks of \<^verbatim>\<open>enrichPayload\<close>.\<close>

definition withImage :: "jv \<Rightarrow> jv" where
  "withImage perk =
     (let img = extractImage perk
      in if truthy img then JObj (setProp ''image'' img (spread [] perk)) else perk)"

definition imageRecord :: "jv \<Rightarrow> err + jv" where
  "imageRecord p =
     (if nullish p then Inl TypeError
      else Inr (JObj
        [(''name'', jor (jor (jor (jor (fld p ''name'') (fld p ''perkName''))
                                  (fld p ''displayName''))
                             (fld p ''id''))
                        JNull),
         (''image'', jor (jor (fld p ''image'') (extractImage p)) JNull)]))"

text \<open>The result is the pair \<^verbatim>\<open>{ perksWithImages, images }\<close>.\<close>

definition enrichPayload :: "jv \<Rightarrow> err + (jv list \<times> jv list)" where
  "enrichPayload payload =
     (let perks = (case fld payload ''perks'' of JArr xs \<Rightarrow> xs | _ \<Rightarrow> []);
          perksWithImages = map withImage perks
      in case mapE imageRecord perksWithImages of
           Inl e \<Rightarrow> Inl e
         | Inr recs \<Rightarrow> Inr (perksWithImages, filter (\<lambda>p. truthy (fld p ''image'')) recs))"

section \<open>The source fetcher\<close>

text \<open>
  The loop of \<^verbatim>\<open>fetchFromSources\<close> over the candidates that are left, with the
  \<^verbatim>\<open>errors\<close> array collected so far. A status that is not ok, an exception of
  \<^verbatim>\<open>fetch\<close> and an exception of \<^verbatim>\<open>response.json()\<close> each push one entry and go on
  to the next candidate.
\<close>

fun fetchLoop :: "string list \<Rightarrow> string list \<Rightarrow> world \<Rightarrow> (err + string \<times> jv) \<times> world" where
  "fetchLoop [] errors w =
     (Inl (Error (''All shrine sources failed: '' @ join '' | '' errors)), w)"
| "fetchLoop (url # rest) errors w =
     (case fetch url w of
        (NetFail m, w') \<Rightarrow> fetchLoop rest (errors @ [url @ '' -> '' @ m]) w'
      | (Response status b, w') \<Rightarrow>
          if \<not> ok status then fetchLoop rest (errors @ [url @ '' -> '' @ show_nat status]) w'
          else (case b of
                  Malformed m \<Rightarrow> fetchLoop rest (errors @ [url @ '' -> '' @ m]) w'
                | Parsed payload \<Rightarrow> (Inr (url, payload), w')))"

definition fetchFromSources :: "string list \<Rightarrow> world \<Rightarrow> (err + string \<times> jv) \<times> world" where
  "fetchFromSources SOURCES w = fetchLoop (candidates SOURCES) [] w"

section \<open>The catalog fetcher\<close>

definition fromArray :: "jv \<Rightarrow> jv list" where
  "fromArray arr = (case arr of JArr xs \<Rightarrow> xs | _ \<Rightarrow> [])"

text \<open>\<^verbatim>\<open>Object.entries(obj).map(([id, value]) => ({ id, ...value }))\<close>.\<close>

definition fromObject :: "jv \<Rightarrow> jv list" where
  "fromObject obj =
     (if typeofObject obj \<and> truthy obj
      then map (\<lambda>(k, v). JObj (spread [(''id'', JStr k)] v)) (ownProps obj)
      else [])"

definition isArray :: "jv \<Rightarrow> bool" where
  "isArray v = (case v of JArr xs \<Rightarrow> True | _ \<Rightarrow> False)"

definition catalogList :: "jv \<Rightarrow> jv list" where
  "catalogList payload =
     (if isArray (fld payload ''data'') then fromArray (fld payload ''data'')
      else if isArray payload then fromArray payload
      else fromObject payload)"

fun catalogLoop :: "string list \<Rightarrow> string list \<Rightarrow> world \<Rightarrow> (err + jv list) \<times> world" where
  "catalogLoop [] errors w =
     (Inl (Error (''All perk catalog sources failed: '' @ join '' | '' errors)), w)"
| "catalogLoop (url # rest) errors w =
     (case fetch url w of
        (NetFail m, w') \<Rightarrow> catalogLoop rest (errors @ [url @ '' -> '' @ m]) w'
      | (Response status b, w') \<Rightarrow>
          if \<not> ok status then catalogLoop rest (errors @ [url @ '' -> '' @ show_nat status]) w'
          else (case b of
                  Malformed m \<Rightarrow> catalogLoop rest (errors @ [url @ '' -> '' @ m]) w'
                | Parsed payload \<Rightarrow> (Inr (catalogList payload), w')))"

definition fetchPerkCatalog :: "world \<Rightarrow> (err + jv list) \<times> world" where
  "fetchPerkCatalog w = catalogLoop PERK_CATALOG_SOURCES [] w"

section \<open>The enrichment merger\<close>

text \<open>
  \<^verbatim>\<open>(perk.id || perk.perkId || perk.name || "").toString().toLowerCase()\<close> for a
  catalog entry that passed the test \<^verbatim>\<open>if (!perk) continue\<close>.
\<close>

definition catalogKey :: "(string \<Rightarrow> string) \<Rightarrow> jv \<Rightarrow> err + string" where
  "catalogKey unicodeLower perk =
     (case jsToString (jor (jor (jor (fld perk ''id'') (fld perk ''perkId''))
                                (fld perk ''name''))
                           (JStr [])) of
        Inl e \<Rightarrow> Inl e
      | Inr s \<Rightarrow> Inr (toLowerCase unicodeLower s))"

text \<open>The first loop of \<^verbatim>\<open>mapPerksWithCatalog\<close>, filling the \<^verbatim>\<open>Map\<close> \<open>byId\<close>.\<close>

fun buildById ::
  "(string \<Rightarrow> string) \<Rightarrow> jv list \<Rightarrow> (string \<rightharpoonup> jv) \<Rightarrow> err + (string \<rightharpoonup> jv)" where
  "buildById unicodeLower [] byId = Inr byId"
| "buildById unicodeLower (perk # rest) byId =
     (if \<not> truthy perk then buildById unicodeLower rest byId
      else (case catalogKey unicodeLower perk of
              Inl e \<Rightarrow> Inl e
            | Inr key \<Rightarrow>
                buildById unicodeLower rest (if key \<noteq> [] then byId(key \<mapsto> perk) else byId)))"

text \<open>\<^verbatim>\<open>byId.get(key)\<close>.\<close>

definition mapGet :: "(string \<rightharpoonup> jv) \<Rightarrow> string \<Rightarrow> jv" where
  "mapGet byId key = (case byId key of Some v \<Rightarrow> v | None \<Rightarrow> JUndef)"

text \<open>
  \<^verbatim>\<open>(PERK_OVERRIDES[key] || {}).name\<close>. The table is a plain object, so the lookup
  also finds what it inherits from \<^verbatim>\<open>Object.prototype\<close>. Of the inherited names
  only \<^verbatim>\<open>constructor\<close> and \<^verbatim>\<open>__proto__\<close> are in lower case; the first is the
  function \<^verbatim>\<open>Object\<close>, whose \<^verbatim>\<open>name\<close> is the string \<^verbatim>\<open>Object\<close>, the second is an
  object with no \<^verbatim>\<open>name\<close>.
\<close>

definition overrideName :: "string \<Rightarrow> jv" where
  "overrideName key =
     (case map_of PERK_OVERRIDES key of
        Some v \<Rightarrow> fld v ''name''
      | None \<Rightarrow> if key = ''constructor'' then JStr ''Object'' else JUndef)"

text \<open>\<^verbatim>\<open>(perk.id || "").toString().toLowerCase()\<close> for a shrine perk.\<close>

definition perkKey :: "(string \<Rightarrow> string) \<Rightarrow> jv \<Rightarrow> err + string" where
  "perkKey unicodeLower perk =
     (case getp perk ''id'' of
        Inl e \<Rightarrow> Inl e
      | Inr pid \<Rightarrow>
          (case jsToString (jor pid (JStr [])) of
             Inl e \<Rightarrow> Inl e
           | Inr s \<Rightarrow> Inr (toLowerCase unicodeLower s)))"

text \<open>
  The callback of \<^verbatim>\<open>shrinePerks.map\<close>. The object literal is read from the inside
  out: the properties of the perk are copied first, then \<^verbatim>\<open>name\<close>,
  \<^verbatim>\<open>description\<close>, \<^verbatim>\<open>role\<close>, \<^verbatim>\<open>character\<close> and \<^verbatim>\<open>image\<close> are set in this
  order.
\<close>

definition mapPerk :: "(string \<Rightarrow> string) \<Rightarrow> (string \<rightharpoonup> jv) \<Rightarrow> jv \<Rightarrow> err + jv" where
  "mapPerk unicodeLower byId perk =
     (case perkKey unicodeLower perk of
        Inl e \<Rightarrow> Inl e
      | Inr key \<Rightarrow>
          (let found = mapGet byId key;
               oname = overrideName key
           in if \<not> truthy found \<and> \<not> truthy oname then Inr perk
              else (case normalizeImageUrl
                           (if truthy found then extractImage found else JNull) of
                      Inl e \<Rightarrow> Inl e
                    | Inr img \<Rightarrow> Inr (JObj
                        (setProp ''image'' (jor img (fld perk ''image''))
                        (setProp ''character''
                           (jor (jor (jor (fld found ''character'') (fld found ''owner''))
                                     (fld found ''survivor''))
                                (fld found ''killer''))
                        (setProp ''role''
                           (jor (fld found ''role'') (fld found ''roleCategory''))
                        (setProp ''description''
                           (jor (fld found ''description'') (fld perk ''description''))
                        (setProp ''name''
                           (jor (jor (jor (jor oname (fld found ''name''))
                                          (fld found ''displayName''))
                                     (fld perk ''name''))
                                (JStr key))
                        (spread [] perk))))))))))"

text \<open>
  \<^verbatim>\<open>shrinePerks\<close> is any value: calling \<^verbatim>\<open>map\<close> on one that is not an array throws.
\<close>

definition mapPerksWithCatalog ::
  "(string \<Rightarrow> string) \<Rightarrow> jv \<Rightarrow> jv list \<Rightarrow> err + jv list" where
  "mapPerksWithCatalog unicodeLower shrinePerks catalog =
     (case buildById unicodeLower catalog Map.empty of
        Inl e \<Rightarrow> Inl e
      | Inr byId \<Rightarrow>
          (case shrinePerks of
             JArr perks \<Rightarrow> mapE (mapPerk unicodeLower byId) perks
           | _ \<Rightarrow> Inl TypeError))"

section \<open>The cache controller\<close>

text \<open>
  \<open>fetchedAt\<close> is the string \<^verbatim>\<open>new Date().toISOString()\<close>, given by the instant it
  denotes, in milliseconds since the epoch: the string and the instant determine each
  other.
\<close>

record snapshot =
  fetchedAt :: int
  sourceUsed :: string
  sourceTried :: "string list"
  data :: jv
  perksWithImages :: "jv list"
  images :: "jv list"

text \<open>The two module variables \<^verbatim>\<open>cache\<close> and \<^verbatim>\<open>lastFetch\<close>.\<close>

record state =
  cache :: "snapshot option"
  lastFetch :: int

definition initial :: state where
  "initial = \<lparr>cache = None, lastFetch = 0\<rparr>"

text \<open>The body of the \<^verbatim>\<open>try\<close> block of \<^verbatim>\<open>loadShrine\<close>.\<close>

definition catalogEnrich ::
  "(string \<Rightarrow> string) \<Rightarrow> jv \<Rightarrow> world \<Rightarrow> (err + (jv list \<times> jv list)) \<times> world" where
  "catalogEnrich unicodeLower payload w =
     (case fetchPerkCatalog w of
        (Inl e, w') \<Rightarrow> (Inl e, w')
      | (Inr catalog, w') \<Rightarrow>
          (case mapPerksWithCatalog unicodeLower (jor (fld payload ''perks'') (JArr [])) catalog of
             Inl e \<Rightarrow> (Inl e, w')
           | Inr merged \<Rightarrow> (enrichPayload (JObj [(''perks'', JArr merged)]), w')))"

text \<open>
  \<^verbatim>\<open>loadShrine\<close> after its first \<^verbatim>\<open>if\<close>: the refresh. \<open>now\<close> is what
  \<^verbatim>\<open>Date.now()\<close> answered when the call started and \<open>built\<close> is the instant that
  \<^verbatim>\<open>new Date()\<close> reads when the snapshot is built, after the requests. The result is
  what the promise settles to, the two module variables after the call and the world
  after the call.
\<close>

definition refresh ::
  "(string \<Rightarrow> string) \<Rightarrow> string list \<Rightarrow> int \<Rightarrow> int \<Rightarrow> state \<Rightarrow> world
     \<Rightarrow> (err + snapshot) \<times> state \<times> world" where
  "refresh unicodeLower SOURCES now built st w =
     (case fetchFromSources SOURCES w of
        (Inl e, w1) \<Rightarrow> (Inl e, st, w1)
      | (Inr (url, payload), w1) \<Rightarrow>
          (case catalogEnrich unicodeLower payload w1 of
             (r, w2) \<Rightarrow>
               (case (case r of Inr x \<Rightarrow> Inr x | Inl catalogErr \<Rightarrow> enrichPayload payload) of
                  Inl e \<Rightarrow> (Inl e, st, w2)
                | Inr (pwi, imgs) \<Rightarrow>
                    (let c = \<lparr>fetchedAt = built, sourceUsed = url,
                              sourceTried = candidates SOURCES, data = payload,
                              perksWithImages = pwi, images = imgs\<rparr>
                     in (Inr c, \<lparr>cache = Some c, lastFetch = now\<rparr>, w2)))))"

text \<open>\<^verbatim>\<open>loadShrine(force)\<close>.\<close>

definition loadShrine ::
  "(string \<Rightarrow> string) \<Rightarrow> string list \<Rightarrow> bool \<Rightarrow> int \<Rightarrow> int \<Rightarrow> state \<Rightarrow> world
     \<Rightarrow> (err + snapshot) \<times> state \<times> world" where
  "loadShrine unicodeLower SOURCES force now built st w =
     (if \<not> force \<and> cache st \<noteq> None \<and> now - lastFetch st < CACHE_TIME
      then (Inr (the (cache st)), st, w)
      else refresh unicodeLower SOURCES now built st w)"

section \<open>Vocabulary of the properties\<close>

text \<open>
  The reason \<^verbatim>\<open>fetchFromSources\<close> records for an attempt that fails: the message of
  the exception of \<^verbatim>\<open>fetch\<close>, the status when it is not ok, or the message of the
  exception of \<^verbatim>\<open>response.json()\<close>. An attempt with no reason is a success.
\<close>

definition failure :: "outcome \<Rightarrow> string option" where
  "failure x =
     (case x of
        NetFail m \<Rightarrow> Some m
      | Response status b \<Rightarrow>
          if \<not> ok status then Some (show_nat status)
          else (case b of Malformed m \<Rightarrow> Some m | Parsed payload \<Rightarrow> None))"

text \<open>
  What the candidate at position \<open>j\<close> answers when a loop that starts in the world
  \<open>w\<close> and found no success before reaches it: its request is the \<open>j\<close>-th after
  those already logged.
\<close>

definition nthAnswer :: "world \<Rightarrow> string list \<Rightarrow> nat \<Rightarrow> outcome" where
  "nthAnswer w cs j = answers w (length (requests w) + j) (cs ! j)"

text \<open>One entry of the aggregate message.\<close>

definition entry :: "string \<Rightarrow> string \<Rightarrow> string" where
  "entry url r = url @ '' -> '' @ r"

text \<open>The record that \<^verbatim>\<open>enrichPayload\<close> builds for a perk that is not \<^verbatim>\<open>null\<close>.\<close>

definition recordOf :: "jv \<Rightarrow> jv" where
  "recordOf p = JObj
     [(''name'', jor (jor (jor (jor (fld p ''name'') (fld p ''perkName''))
                               (fld p ''displayName''))
                          (fld p ''id''))
                     JNull),
      (''image'', jor (jor (fld p ''image'') (extractImage p)) JNull)]"

subsection \<open>Entries as the data model has them\<close>

text \<open>
  A field that is a string or is absent. A perk entry is an object whose \<^verbatim>\<open>id\<close> is
  such a field; a catalog entry is an object whose identifying fields and image fields
  are.
\<close>

definition textual :: "jv \<Rightarrow> bool" where
  "textual v = (case v of JStr s \<Rightarrow> True | JUndef \<Rightarrow> True | JNull \<Rightarrow> True | _ \<Rightarrow> False)"

definition perkEntry :: "jv \<Rightarrow> bool" where
  "perkEntry p = (case p of JObj kvs \<Rightarrow> textual (fld p ''id'') | _ \<Rightarrow> False)"

definition catalogEntry :: "jv \<Rightarrow> bool" where
  "catalogEntry e =
     (case e of
        JObj kvs \<Rightarrow>
          list_all (\<lambda>k. textual (fld e k))
            [''id'', ''perkId'', ''name'', ''icon'', ''iconUrl'', ''iconPath'', ''image'',
             ''perkImage'', ''perkIcon'']
      | _ \<Rightarrow> False)"

subsection \<open>Sample inputs\<close>




definition sampleSnapshot :: snapshot where
  "sampleSnapshot =
     \<lparr>fetchedAt = 1250,
      sourceUsed = ''https://dbd.tricky.lol/api/shrine'',
      sourceTried = DEFAULT_SOURCES,
      data = JObj [(''perks'', JArr [])],
      perksWithImages = [],
      images = []\<rparr>"

text \<open>
  The state after a refresh that started at 1000 and built its snapshot 250
  milliseconds later.
\<close>

definition warm :: state where
  "warm = \<lparr>cache = Some sampleSnapshot, lastFetch = 1000\<rparr>"

text \<open>Every request is answered with status 503.\<close>

definition allDown :: world where
  "allDown = \<lparr>requests = [], answers = (\<lambda>k url. Response 503 (Malformed ''Unexpected token''))\<rparr>"


text \<open>
  The perk of the scenario of claim C6 after \<^verbatim>\<open>mapPerksWithCatalog\<close>, and after
  \<^verbatim>\<open>enrichPayload\<close> on top of it.
\<close>

definition scenarioMerged :: jv where
  "scenarioMerged =
     JObj [(''id'', JStr ''k28p02''), (''icon'', JStr ''/icons/a.png''),
           (''name'', JStr ''Darkness Revealed''), (''description'', JUndef),
           (''role'', JUndef), (''character'', JUndef), (''image'', JUndef)]"

definition scenarioEnriched :: jv where
  "scenarioEnriched =
     JObj [(''id'', JStr ''k28p02''), (''icon'', JStr ''/icons/a.png''),
           (''name'', JStr ''Darkness Revealed''), (''description'', JUndef),
           (''role'', JUndef), (''character'', JUndef), (''image'', JStr ''/icons/a.png'')]"


text \<open>The first request is answered with the payload, every later one with \<^verbatim>\<open>[]\<close>.\<close>

definition emptyCatalog :: "jv \<Rightarrow> world" where
  "emptyCatalog payload =
     \<lparr>requests = [],
      answers = (\<lambda>k url. if k = 0 then Response 200 (Parsed payload)
                          else Response 200 (Parsed (JArr [])))\<rparr>"

text \<open>
  The shrine sources answer with a payload of no perks and the catalog with \<^verbatim>\<open>[]\<close>,
  at every request.
\<close>

definition steady :: world where
  "steady =
     \<lparr>requests = [],
      answers = (\<lambda>k url. if url = ''https://dbd.tricky.lol/api/perks''
                          then Response 200 (Parsed (JArr []))
                          else Response 200 (Parsed (JObj [(''perks'', JArr [])])))\<rparr>"

text \<open>The snapshot of a refresh in that world that builds it at the instant \<open>t\<close>.\<close>

definition steadySnapshot :: "int \<Rightarrow> snapshot" where
  "steadySnapshot t =
     \<lparr>fetchedAt = t,
      sourceUsed = ''https://dbd.tricky.lol/api/shrine'',
      sourceTried = DEFAULT_SOURCES,
      data = JObj [(''perks'', JArr [])],
      perksWithImages = [],
      images = []\<rparr>"

section \<open>Evaluation\<close>

lemmas js_defs = jor_def nullish_def getp_def toLowerCase_def isAscii_def lowerChar_def
  startsWith_def setProp_def spread_def indexed_def digit_def enumOrder_def isIndex_def
  digitVal_def readNat_def

lemmas fetch_defs = fetchFromSources_def candidates_def DEFAULT_SOURCES_def fetch_def ok_def
  fetchPerkCatalog_def PERK_CATALOG_SOURCES_def catalogList_def isArray_def fromArray_def
  fromObject_def

lemmas enrich_defs = enrichPayload_def withImage_def imageRecord_def extractImage_def
  findTruthy_def

text \<open>
  On an ASCII string the parameter of \<open>toLowerCase\<close> is not consulted. The closed
  statements below take the identity for it; their strings are ASCII.
\<close>

lemma toLowerCase_ascii: "isAscii s \<Longrightarrow> toLowerCase unicodeLower s = map lowerChar s"
  by (simp add: toLowerCase_def)

section \<open>The source fetcher: first success and aggregate failure\<close>

lemma fetchLoop_fail_step:
  assumes "failure (answers w (length (requests w)) url) = Some r"
  shows "fetchLoop (url # rest) errors w =
     fetchLoop rest (errors @ [entry url r]) (snd (fetch url w))"
  using assms
  by (auto simp: failure_def fetch_def entry_def split: outcome.splits body.splits if_splits)

lemma fetchLoop_all_fail:
  "\<forall>j<length cs. failure (nthAnswer w cs j) = Some (r j) \<Longrightarrow>
   fetchLoop cs errors w =
     (Inl (Error (''All shrine sources failed: '' @
        join '' | '' (errors @ map (\<lambda>j. entry (cs ! j) (r j)) [0..<length cs]))),
      w\<lparr>requests := requests w @ cs\<rparr>)"
proof (induction cs arbitrary: errors w r)
  case Nil
  then show ?case by simp
next
  case (Cons url rest)
  from Cons.prems have h0: "failure (answers w (length (requests w)) url) = Some (r 0)"
    by (auto simp: nthAnswer_def dest: spec [of _ 0])
  let ?w = "snd (fetch url w)"
  have hr: "\<forall>j<length rest. failure (nthAnswer ?w rest j) = Some (r (Suc j))"
  proof (intro allI impI)
    fix j assume "j < length rest"
    with Cons.prems have "failure (nthAnswer w (url # rest) (Suc j)) = Some (r (Suc j))"
      by auto
    then show "failure (nthAnswer ?w rest j) = Some (r (Suc j))"
      by (simp add: nthAnswer_def fetch_def)
  qed
  have m: "map (\<lambda>j. entry ((url # rest) ! j) (r j)) [0..<length (url # rest)] =
        entry url (r 0) # map (\<lambda>j. entry (rest ! j) (r (Suc j))) [0..<length rest]"
    by (simp add: upt_conv_Cons map_Suc_upt [symmetric] del: upt_Suc)
  show ?case
    unfolding fetchLoop_fail_step [OF h0] Cons.IH [OF hr] m
    by (simp add: fetch_def)
qed

lemma fetchLoop_first_ok:
  assumes "i < length cs"
    and "\<forall>j<i. failure (nthAnswer w cs j) \<noteq> None"
    and "nthAnswer w cs i = Response status (Parsed payload)"
    and "ok status"
  shows "fetchLoop cs errors w =
     (Inr (cs ! i, payload), w\<lparr>requests := requests w @ take (Suc i) cs\<rparr>)"
  using assms
proof (induction cs arbitrary: errors w i)
  case Nil
  then show ?case by simp
next
  case (Cons url rest)
  show ?case
  proof (cases i)
    case 0
    with Cons.prems show ?thesis
      by (simp add: nthAnswer_def fetch_def)
  next
    case (Suc k)
    with Cons.prems obtain r where h0: "failure (answers w (length (requests w)) url) = Some r"
      by (auto simp: nthAnswer_def dest: spec [of _ 0])
    let ?w = "snd (fetch url w)"
    have k: "k < length rest" using Cons.prems Suc by simp
    have hr: "\<forall>j<k. failure (nthAnswer ?w rest j) \<noteq> None"
    proof (intro allI impI)
      fix j assume "j < k"
      with Cons.prems Suc have "failure (nthAnswer w (url # rest) (Suc j)) \<noteq> None"
        by auto
      then show "failure (nthAnswer ?w rest j) \<noteq> None"
        by (simp add: nthAnswer_def fetch_def)
    qed
    have hk: "nthAnswer ?w rest k = Response status (Parsed payload)"
      using Cons.prems Suc by (simp add: nthAnswer_def fetch_def)
    show ?thesis
      unfolding fetchLoop_fail_step [OF h0] Cons.IH [OF k hr hk \<open>ok status\<close>]
      using Suc by (simp add: fetch_def)
  qed
qed

text \<open>
  Claim C1. Whenever the candidate at some position \<open>i\<close> answers with a 2xx status
  and a body that parses, and every candidate before it fails (for whatever reason:
  an exception, a status that is not ok, a body that does not parse),
  \<^verbatim>\<open>fetchFromSources\<close> returns the URL and the payload of that candidate, and it
  has requested exactly the candidates up to it.
\<close>

theorem fetchFromSources_first_success:
  assumes "i < length (candidates SOURCES)"
    and "\<forall>j<i. failure (nthAnswer w (candidates SOURCES) j) \<noteq> None"
    and "nthAnswer w (candidates SOURCES) i = Response status (Parsed payload)"
    and "ok status"
  shows "fetchFromSources SOURCES w =
     (Inr (candidates SOURCES ! i, payload),
      w\<lparr>requests := requests w @ take (Suc i) (candidates SOURCES)\<rparr>)"
  unfolding fetchFromSources_def using assms by (rule fetchLoop_first_ok)

theorem fetchFromSources_first_success_witness:
  "failure (NetFail ''ECONNREFUSED'') \<noteq> None
   \<and> failure (Response 503 (Parsed JNull)) \<noteq> None
   \<and> ok 200
   \<and> fetchFromSources
        [''https://a.example/shrine'', ''https://b.example/shrine'', ''https://c.example/shrine'']
        \<lparr>requests = [],
         answers = (\<lambda>k url. if k = 0 then NetFail ''ECONNREFUSED''
                             else if k = 1 then Response 503 (Parsed JNull)
                             else Response 200 (Parsed (JObj [(''perks'', JArr [])])))\<rparr>
       = (Inr (''https://c.example/shrine'', JObj [(''perks'', JArr [])]),
          \<lparr>requests =
             [''https://a.example/shrine'', ''https://b.example/shrine'', ''https://c.example/shrine''],
           answers = (\<lambda>k url. if k = 0 then NetFail ''ECONNREFUSED''
                             else if k = 1 then Response 503 (Parsed JNull)
                             else Response 200 (Parsed (JObj [(''perks'', JArr [])])))\<rparr>)"
  using fetchFromSources_first_success
    [of 2 "[''https://a.example/shrine'', ''https://b.example/shrine'', ''https://c.example/shrine'']"
        "\<lparr>requests = [],
         answers = (\<lambda>k url. if k = 0 then NetFail ''ECONNREFUSED''
                             else if k = 1 then Response 503 (Parsed JNull)
                             else Response 200 (Parsed (JObj [(''perks'', JArr [])])))\<rparr>"
        200 "JObj [(''perks'', JArr [])]"]
  by (simp add: candidates_def nthAnswer_def failure_def ok_def less_Suc_eq numeral_2_eq_2)

text \<open>
  Claim C8. When every candidate fails, the candidate at position \<open>j\<close> with the
  reason \<open>r j\<close>, \<^verbatim>\<open>fetchFromSources\<close> throws the error whose message is
  \<^verbatim>\<open>All shrine sources failed: \<close> followed by the entries \<^verbatim>\<open>url -> reason\<close>, one
  for each candidate and in the order of the attempts, joined with \<^verbatim>\<open> | \<close>.
\<close>

theorem fetchFromSources_all_fail:
  assumes "\<forall>j<length (candidates SOURCES).
             failure (nthAnswer w (candidates SOURCES) j) = Some (r j)"
  shows "fetchFromSources SOURCES w =
     (Inl (Error (''All shrine sources failed: '' @
        join '' | '' (map (\<lambda>j. entry (candidates SOURCES ! j) (r j))
                          [0..<length (candidates SOURCES)]))),
      w\<lparr>requests := requests w @ candidates SOURCES\<rparr>)"
  unfolding fetchFromSources_def using fetchLoop_all_fail [OF assms, of "[]"] by simp

theorem fetchFromSources_all_fail_witness:
  "failure (Response 503 (Parsed JNull)) = Some ''503''
   \<and> failure (NetFail ''socket hang up'') = Some ''socket hang up''
   \<and> fst (fetchFromSources []
        \<lparr>requests = [],
         answers = (\<lambda>k url. if k = 0 then Response 503 (Parsed JNull)
                             else NetFail ''socket hang up'')\<rparr>)
       = Inl (Error (''All shrine sources failed: https://dbd.tricky.lol/api/shrine -> 503 | ''
            @ ''https://dbd-api.herokuapp.com/shrineofsecrets?pretty=false&branch=live''
            @ '' -> socket hang up''))"
  using fetchFromSources_all_fail
    [of "[]"
        "\<lparr>requests = [],
         answers = (\<lambda>k url. if k = 0 then Response 503 (Parsed JNull)
                             else NetFail ''socket hang up'')\<rparr>"
        "\<lambda>j. if j = 0 then ''503'' else ''socket hang up''"]
  by (simp add: candidates_def DEFAULT_SOURCES_def nthAnswer_def failure_def ok_def entry_def
      less_Suc_eq numeral_2_eq_2 show_nat.simps digit_def upt_conv_Cons)

section \<open>Image normalisation\<close>





section \<open>The cache controller\<close>

text \<open>
  Claim C4. With a snapshot in the cache, a call of \<^verbatim>\<open>loadShrine\<close>, forced or not,
  in a world where \<^verbatim>\<open>fetchFromSources\<close> fails leaves both module variables as they
  were; and when the call does refresh (it is forced, or the snapshot is at least
  \<open>CACHE_TIME\<close> old) it rejects with the error of \<^verbatim>\<open>fetchFromSources\<close>.
\<close>

theorem loadShrine_failed_fetch_keeps_cache:
  assumes "fst (fetchFromSources SOURCES w) = Inl e"
    and "cache st = Some snap"
  shows "fst (snd (loadShrine u SOURCES force now built st w)) = st
     \<and> (force \<or> CACHE_TIME \<le> now - lastFetch st \<longrightarrow>
          loadShrine u SOURCES force now built st w
            = (Inl e, st, snd (fetchFromSources SOURCES w)))"
  using assms
  by (cases "fetchFromSources SOURCES w") (auto simp: loadShrine_def refresh_def)

theorem loadShrine_failed_fetch_keeps_cache_witness:
  "cache warm = Some sampleSnapshot
   \<and> loadShrine (\<lambda>s. s) [] True (1000 + CACHE_TIME) (1300 + CACHE_TIME) warm allDown
       = (Inl (Error (''All shrine sources failed: https://dbd.tricky.lol/api/shrine -> 503 | ''
            @ ''https://dbd-api.herokuapp.com/shrineofsecrets?pretty=false&branch=live''
            @ '' -> 503'')),
          warm, allDown\<lparr>requests := DEFAULT_SOURCES\<rparr>)"
proof -
  have f: "fetchFromSources [] allDown
       = (Inl (Error (''All shrine sources failed: https://dbd.tricky.lol/api/shrine -> 503 | ''
            @ ''https://dbd-api.herokuapp.com/shrineofsecrets?pretty=false&branch=live''
            @ '' -> 503'')),
          allDown\<lparr>requests := DEFAULT_SOURCES\<rparr>)"
    by (simp add: fetch_defs allDown_def show_nat.simps digit_def)
  have c: "cache warm = Some sampleSnapshot" by (simp add: warm_def)
  from loadShrine_failed_fetch_keeps_cache [of "[]" allDown _ warm sampleSnapshot "\<lambda>s. s" True
      "1000 + CACHE_TIME" "1300 + CACHE_TIME"] f c
  show ?thesis by simp
qed

lemma candidates_nonempty: "candidates SOURCES \<noteq> []"
  by (auto simp: candidates_def DEFAULT_SOURCES_def)

lemma fetchLoop_requests:
  "\<exists>ys. requests (snd (fetchLoop cs errors w)) = requests w @ ys"
proof (induction cs arbitrary: errors w)
  case Nil
  then show ?case by simp
next
  case (Cons url rest)
  have step: "\<exists>ys. requests (snd (fetchLoop rest errs (w\<lparr>requests := requests w @ [url]\<rparr>)))
                = requests w @ ys" for errs
    using Cons.IH [of errs "w\<lparr>requests := requests w @ [url]\<rparr>"] by auto
  show ?case
    using step
    by (auto simp: fetch_def split: outcome.splits body.splits prod.splits)
qed

lemma fetchLoop_requests_hd:
  "\<exists>ys. requests (snd (fetchLoop (url # rest) errors w)) = requests w @ url # ys"
proof -
  have step: "\<exists>ys. requests (snd (fetchLoop rest errs (w\<lparr>requests := requests w @ [url]\<rparr>)))
                = requests w @ url # ys" for errs
    using fetchLoop_requests [of rest errs "w\<lparr>requests := requests w @ [url]\<rparr>"] by auto
  show ?thesis
    using step
    by (auto simp: fetch_def split: outcome.splits body.splits prod.splits)
qed

lemma catalogLoop_requests:
  "\<exists>ys. requests (snd (catalogLoop cs errors w)) = requests w @ ys"
proof (induction cs arbitrary: errors w)
  case Nil
  then show ?case by simp
next
  case (Cons url rest)
  have step: "\<exists>ys. requests (snd (catalogLoop rest errs (w\<lparr>requests := requests w @ [url]\<rparr>)))
                = requests w @ ys" for errs
    using Cons.IH [of errs "w\<lparr>requests := requests w @ [url]\<rparr>"] by auto
  show ?case
    using step
    by (auto simp: fetch_def split: outcome.splits body.splits prod.splits)
qed

lemma catalogEnrich_requests:
  "\<exists>ys. requests (snd (catalogEnrich u payload w)) = requests w @ ys"
  using catalogLoop_requests [of PERK_CATALOG_SOURCES "[]" w]
  by (auto simp: catalogEnrich_def fetchPerkCatalog_def split: prod.splits sum.splits)

text \<open>A refresh requests the first candidate before anything else.\<close>

lemma refresh_requests:
  "\<exists>rest. requests (snd (snd (refresh u SOURCES now built st w)))
           = requests w @ hd (candidates SOURCES) # rest"
proof -
  obtain r w1 where f: "fetchFromSources SOURCES w = (r, w1)" by force
  obtain c cs where cs: "candidates SOURCES = c # cs"
    using candidates_nonempty [of SOURCES] by (auto simp: neq_Nil_conv)
  from fetchLoop_requests_hd [of c cs "[]" w] f cs
  obtain ys where ys: "requests w1 = requests w @ hd (candidates SOURCES) # ys"
    by (auto simp: fetchFromSources_def)
  show ?thesis
  proof (cases r)
    case (Inl e)
    with f ys show ?thesis by (auto simp: refresh_def)
  next
    case (Inr up)
    obtain url payload where up: "up = (url, payload)" by force
    obtain c w2 where c: "catalogEnrich u payload w1 = (c, w2)" by force
    from catalogEnrich_requests [of u payload w1] c
    obtain zs where "requests w2 = requests w1 @ zs"
      by auto
    with ys have "requests w2 = requests w @ hd (candidates SOURCES) # (ys @ zs)" by simp
    with f Inr up c show ?thesis
      by (auto simp: refresh_def Let_def split: sum.splits prod.splits)
  qed
qed

text \<open>
  A refresh that succeeds stores its snapshot, sets \<open>lastFetch\<close> to the time at
  which the call started and \<open>fetchedAt\<close> to the instant at which the snapshot was
  built.
\<close>

lemma refresh_times:
  assumes "refresh u SOURCES now built st w = (Inr snap', st', w')"
  shows "cache st' = Some snap' \<and> lastFetch st' = now \<and> fetchedAt snap' = built"
  using assms
  by (auto simp: refresh_def Let_def split: sum.splits prod.splits)

lemma steady_refresh:
  "refresh (\<lambda>s. s) [] now built st (steady\<lparr>requests := rs\<rparr>)
     = (Inr (steadySnapshot built),
        \<lparr>cache = Some (steadySnapshot built), lastFetch = now\<rparr>,
        steady\<lparr>requests := rs @ [''https://dbd.tricky.lol/api/shrine'',
                                   ''https://dbd.tricky.lol/api/perks'']\<rparr>)"
proof -
  let ?w1 = "steady\<lparr>requests := rs @ [''https://dbd.tricky.lol/api/shrine'']\<rparr>"
  let ?w2 = "steady\<lparr>requests := rs @ [''https://dbd.tricky.lol/api/shrine'',
                                   ''https://dbd.tricky.lol/api/perks'']\<rparr>"
  have f: "fetchFromSources [] (steady\<lparr>requests := rs\<rparr>)
      = (Inr (''https://dbd.tricky.lol/api/shrine'', JObj [(''perks'', JArr [])]), ?w1)"
    by (simp add: fetch_defs steady_def)
  have g: "fetchPerkCatalog ?w1 = (Inr [], ?w2)"
    by (simp add: fetch_defs steady_def)
  have c: "catalogEnrich (\<lambda>s. s) (JObj [(''perks'', JArr [])]) ?w1 = (Inr ([], []), ?w2)"
    unfolding catalogEnrich_def g
    by (simp add: jor_def mapPerksWithCatalog_def enrichPayload_def)
  show ?thesis
    unfolding refresh_def f
    by (simp add: c candidates_def steadySnapshot_def Let_def)
qed

text \<open>
  Claim C5, as stated, fails at its boundary. In a world where every source answers,
  a forced call that starts at 1000 and builds its snapshot at 1250 leaves
  \<open>lastFetch = 1000\<close> and \<open>fetchedAt = 1250\<close>. The read at
  \<open>fetchedAt + CACHE_TIME - 1\<close> that follows is not a hit: it requests the shrine
  and the catalog again and replaces the snapshot.
\<close>

theorem cache_boundary_counterexample:
  "loadShrine (\<lambda>s. s) [] True 1000 1250 initial steady
     = (Inr (steadySnapshot 1250),
        \<lparr>cache = Some (steadySnapshot 1250), lastFetch = 1000\<rparr>,
        steady\<lparr>requests := [''https://dbd.tricky.lol/api/shrine'',
                             ''https://dbd.tricky.lol/api/perks'']\<rparr>)
   \<and> fetchedAt (steadySnapshot 1250) = 1250
   \<and> loadShrine (\<lambda>s. s) [] False (1250 + CACHE_TIME - 1) (1500 + CACHE_TIME)
        \<lparr>cache = Some (steadySnapshot 1250), lastFetch = 1000\<rparr>
        (steady\<lparr>requests := [''https://dbd.tricky.lol/api/shrine'',
                              ''https://dbd.tricky.lol/api/perks'']\<rparr>)
     = (Inr (steadySnapshot (1500 + CACHE_TIME)),
        \<lparr>cache = Some (steadySnapshot (1500 + CACHE_TIME)),
         lastFetch = 1250 + CACHE_TIME - 1\<rparr>,
        steady\<lparr>requests := [''https://dbd.tricky.lol/api/shrine'',
                             ''https://dbd.tricky.lol/api/perks'',
                             ''https://dbd.tricky.lol/api/shrine'',
                             ''https://dbd.tricky.lol/api/perks'']\<rparr>)
   \<and> steadySnapshot (1500 + CACHE_TIME) \<noteq> steadySnapshot 1250"
proof -
  have s0: "steady = steady\<lparr>requests := []\<rparr>" by (simp add: steady_def)
  have 1: "loadShrine (\<lambda>s. s) [] True 1000 1250 initial steady
     = (Inr (steadySnapshot 1250),
        \<lparr>cache = Some (steadySnapshot 1250), lastFetch = 1000\<rparr>,
        steady\<lparr>requests := [''https://dbd.tricky.lol/api/shrine'',
                             ''https://dbd.tricky.lol/api/perks'']\<rparr>)"
    using steady_refresh [of 1000 1250 initial "[]"] s0 by (simp add: loadShrine_def)
  have 2: "loadShrine (\<lambda>s. s) [] False (1250 + CACHE_TIME - 1) (1500 + CACHE_TIME)
        \<lparr>cache = Some (steadySnapshot 1250), lastFetch = 1000\<rparr>
        (steady\<lparr>requests := [''https://dbd.tricky.lol/api/shrine'',
                              ''https://dbd.tricky.lol/api/perks'']\<rparr>)
     = (Inr (steadySnapshot (1500 + CACHE_TIME)),
        \<lparr>cache = Some (steadySnapshot (1500 + CACHE_TIME)),
         lastFetch = 1250 + CACHE_TIME - 1\<rparr>,
        steady\<lparr>requests := [''https://dbd.tricky.lol/api/shrine'',
                             ''https://dbd.tricky.lol/api/perks'',
                             ''https://dbd.tricky.lol/api/shrine'',
                             ''https://dbd.tricky.lol/api/perks'']\<rparr>)"
    by (simp add: loadShrine_def steady_refresh)
  have 3: "steadySnapshot (1500 + CACHE_TIME) \<noteq> steadySnapshot 1250"
    by (simp add: steadySnapshot_def CACHE_TIME_def)
  from 1 2 3 show ?thesis by (simp add: steadySnapshot_def)
qed

text \<open>
  Claim C5, amended: the boundary is at \<open>lastFetch\<close>, the reading of
  \<^verbatim>\<open>Date.now()\<close> with which the call that built the snapshot started, not at
  \<open>fetchedAt\<close>. With a snapshot in the cache, a call that is not forced and starts
  less than \<open>CACHE_TIME\<close> milliseconds after \<open>lastFetch\<close> returns that snapshot
  and changes neither the module variables nor the world: no request is issued. The
  call at \<open>lastFetch + CACHE_TIME - 1\<close> is such a hit. A call that starts
  \<open>CACHE_TIME\<close> or more after \<open>lastFetch\<close>, the one at
  \<open>lastFetch + CACHE_TIME + 1\<close> among them, is the refresh: it requests the first
  candidate, and when it succeeds it stores the new snapshot with the new
  \<open>lastFetch\<close> and \<open>fetchedAt\<close>.
\<close>

theorem loadShrine_cache_hit:
  assumes "cache st = Some snap"
  shows "(now - lastFetch st < CACHE_TIME \<longrightarrow>
            loadShrine u SOURCES False now built st w = (Inr snap, st, w))
     \<and> loadShrine u SOURCES False (lastFetch st + CACHE_TIME - 1) built st w = (Inr snap, st, w)
     \<and> (CACHE_TIME \<le> now - lastFetch st \<longrightarrow>
            loadShrine u SOURCES False now built st w = refresh u SOURCES now built st w)
     \<and> loadShrine u SOURCES False (lastFetch st + CACHE_TIME + 1) built st w
          = refresh u SOURCES (lastFetch st + CACHE_TIME + 1) built st w
     \<and> (\<exists>rest. requests (snd (snd (refresh u SOURCES now built st w)))
           = requests w @ hd (candidates SOURCES) # rest)
     \<and> (\<forall>snap' st' w'. refresh u SOURCES now built st w = (Inr snap', st', w') \<longrightarrow>
           cache st' = Some snap' \<and> lastFetch st' = now \<and> fetchedAt snap' = built)"
  using assms refresh_requests [of u SOURCES now built st w]
  by (auto simp: loadShrine_def dest: refresh_times)

theorem loadShrine_cache_hit_witness:
  "cache warm = Some sampleSnapshot
   \<and> (1000 + CACHE_TIME - 1) - lastFetch warm < CACHE_TIME
   \<and> loadShrine (\<lambda>s. s) [] False (1000 + CACHE_TIME - 1) (1300 + CACHE_TIME) warm allDown
       = (Inr sampleSnapshot, warm, allDown)
   \<and> CACHE_TIME \<le> (1000 + CACHE_TIME + 1) - lastFetch warm
   \<and> loadShrine (\<lambda>s. s) [] False (1000 + CACHE_TIME + 1) (1300 + CACHE_TIME) warm steady
       = (Inr (steadySnapshot (1300 + CACHE_TIME)),
          \<lparr>cache = Some (steadySnapshot (1300 + CACHE_TIME)), lastFetch = 1000 + CACHE_TIME + 1\<rparr>,
          steady\<lparr>requests := [''https://dbd.tricky.lol/api/shrine'',
                               ''https://dbd.tricky.lol/api/perks'']\<rparr>)
   \<and> fetchedAt (steadySnapshot (1300 + CACHE_TIME)) = 1300 + CACHE_TIME"
proof -
  have c: "cache warm = Some sampleSnapshot" "lastFetch warm = 1000"
    by (simp_all add: warm_def)
  have s0: "steady = steady\<lparr>requests := []\<rparr>" by (simp add: steady_def)
  have r: "refresh (\<lambda>s. s) [] (1000 + CACHE_TIME + 1) (1300 + CACHE_TIME) warm steady
       = (Inr (steadySnapshot (1300 + CACHE_TIME)),
          \<lparr>cache = Some (steadySnapshot (1300 + CACHE_TIME)), lastFetch = 1000 + CACHE_TIME + 1\<rparr>,
          steady\<lparr>requests := [''https://dbd.tricky.lol/api/shrine'',
                               ''https://dbd.tricky.lol/api/perks'']\<rparr>)"
    using steady_refresh [of "1000 + CACHE_TIME + 1" "1300 + CACHE_TIME" warm "[]"] s0 by simp
  have h1: "(1000 + CACHE_TIME - 1) - lastFetch warm < CACHE_TIME"
    and h2: "CACHE_TIME \<le> (1000 + CACHE_TIME + 1) - lastFetch warm"
    by (simp_all add: c)
  from loadShrine_cache_hit [OF c(1), of "1000 + CACHE_TIME - 1" "\<lambda>s. s" "[]"
      "1300 + CACHE_TIME" allDown] h1
  have a: "loadShrine (\<lambda>s. s) [] False (1000 + CACHE_TIME - 1) (1300 + CACHE_TIME) warm allDown
       = (Inr sampleSnapshot, warm, allDown)"
    by blast
  from loadShrine_cache_hit [OF c(1), of "1000 + CACHE_TIME + 1" "\<lambda>s. s" "[]"
      "1300 + CACHE_TIME" steady] h2
  have b: "loadShrine (\<lambda>s. s) [] False (1000 + CACHE_TIME + 1) (1300 + CACHE_TIME) warm steady
       = refresh (\<lambda>s. s) [] (1000 + CACHE_TIME + 1) (1300 + CACHE_TIME) warm steady"
    by blast
  have d: "fetchedAt (steadySnapshot (1300 + CACHE_TIME)) = 1300 + CACHE_TIME"
    by (simp add: steadySnapshot_def)
  from c(1) h1 h2 a d show ?thesis unfolding b r by blast
qed


section \<open>The enrichment merger\<close>

lemma mapE_Inr:
  "mapE f xs = Inr ys \<Longrightarrow> length ys = length xs \<and> (\<forall>i<length xs. f (xs ! i) = Inr (ys ! i))"
proof (induction xs arbitrary: ys)
  case Nil
  then show ?case by simp
next
  case (Cons x xs)
  then show ?case
    by (auto simp: nth_Cons split: sum.splits nat.splits)
qed

lemma mapE_returns:
  "\<forall>x\<in>set xs. \<exists>y. f x = Inr y \<Longrightarrow> \<exists>ys. mapE f xs = Inr ys"
  by (induction xs) auto


lemma buildById_None:
  "buildById u catalog byId0 = Inr byId \<Longrightarrow> byId0 k = None \<Longrightarrow>
   \<forall>e\<in>set catalog. truthy e \<longrightarrow> catalogKey u e \<noteq> Inr k \<Longrightarrow> byId k = None"
proof (induction catalog arbitrary: byId0)
  case Nil
  then show ?case by simp
next
  case (Cons e rest)
  show ?case
  proof (cases "truthy e")
    case False
    with Cons.prems Cons.IH [of byId0] show ?thesis by simp
  next
    case True
    with Cons.prems obtain key where key: "catalogKey u e = Inr key"
      by (auto split: sum.splits)
    with True Cons.prems have neq: "key \<noteq> k" by auto
    let ?m = "if key \<noteq> [] then byId0(key \<mapsto> e) else byId0"
    from neq Cons.prems have "?m k = None" by simp
    moreover from True key Cons.prems have "buildById u rest ?m = Inr byId" by simp
    ultimately show ?thesis using Cons.IH [of ?m] Cons.prems by simp
  qed
qed

lemma buildById_blank:
  "buildById u catalog byId0 = Inr byId \<Longrightarrow> byId0 [] = None \<Longrightarrow> byId [] = None"
proof (induction catalog arbitrary: byId0)
  case Nil
  then show ?case by simp
next
  case (Cons e rest)
  show ?case
  proof (cases "truthy e")
    case False
    with Cons.prems Cons.IH [of byId0] show ?thesis by simp
  next
    case True
    with Cons.prems obtain key where key: "catalogKey u e = Inr key"
      by (auto split: sum.splits)
    let ?m = "if key \<noteq> [] then byId0(key \<mapsto> e) else byId0"
    from Cons.prems have "?m [] = None" by simp
    moreover from True key Cons.prems have "buildById u rest ?m = Inr byId" by simp
    ultimately show ?thesis using Cons.IH [of ?m] by simp
  qed
qed

text \<open>What \<open>byId\<close> holds for a key is an entry of the catalog with that key.\<close>

lemma buildById_Some:
  "buildById u catalog byId0 = Inr byId \<Longrightarrow> byId k = Some v \<Longrightarrow>
   byId0 k = Some v \<or> (v \<in> set catalog \<and> truthy v \<and> catalogKey u v = Inr k)"
proof (induction catalog arbitrary: byId0)
  case Nil
  then show ?case by simp
next
  case (Cons e rest)
  show ?case
  proof (cases "truthy e")
    case False
    with Cons.prems Cons.IH [of byId0] show ?thesis by auto
  next
    case True
    with Cons.prems obtain key where key: "catalogKey u e = Inr key"
      by (auto split: sum.splits)
    let ?m = "if key \<noteq> [] then byId0(key \<mapsto> e) else byId0"
    from True key Cons.prems have "buildById u rest ?m = Inr byId" by simp
    from Cons.IH [OF this Cons.prems(2)] True key show ?thesis
      by (auto split: if_splits)
  qed
qed

lemma textual_jor: "textual a \<Longrightarrow> textual b \<Longrightarrow> textual (jor a b)"
  by (simp add: jor_def)

lemma jsToString_textual_or_empty:
  "textual a \<Longrightarrow> \<exists>s. jsToString (jor a (JStr [])) = Inr s"
  by (cases a) (auto simp: textual_def jor_def)

lemma catalogKey_returns: "catalogEntry e \<Longrightarrow> \<exists>k. catalogKey u e = Inr k"
proof -
  assume "catalogEntry e"
  then have "textual (jor (jor (fld e ''id'') (fld e ''perkId'')) (fld e ''name''))"
    by (auto simp: catalogEntry_def intro!: textual_jor split: jv.splits)
  from jsToString_textual_or_empty [OF this] show ?thesis
    by (auto simp: catalogKey_def)
qed

lemma buildById_returns:
  "\<forall>e\<in>set catalog. catalogEntry e \<Longrightarrow> \<exists>byId. buildById u catalog byId0 = Inr byId"
proof (induction catalog arbitrary: byId0)
  case Nil
  then show ?case by simp
next
  case (Cons e rest)
  then obtain k where "catalogKey u e = Inr k"
    using catalogKey_returns [of e u] by auto
  with Cons show ?case by auto
qed

lemma perkKey_returns: "perkEntry p \<Longrightarrow> \<exists>k. perkKey u p = Inr k"
proof -
  assume p: "perkEntry p"
  then have "textual (fld p ''id'')" and "\<not> nullish p"
    by (auto simp: perkEntry_def nullish_def split: jv.splits)
  with jsToString_textual_or_empty [of "fld p ''id''"] show ?thesis
    by (auto simp: perkKey_def getp_def)
qed

lemma textual_findTruthy: "\<forall>x\<in>set xs. textual x \<Longrightarrow> textual (findTruthy xs)"
  by (induction xs) (auto simp: findTruthy_def textual_def)

lemma extractImage_textual: "catalogEntry e \<Longrightarrow> textual (extractImage e)"
proof -
  assume "catalogEntry e"
  then have "textual (findTruthy
                  [fld e ''icon'', fld e ''iconUrl'', fld e ''iconPath'',
                   fld e ''image'', fld e ''perkImage'', fld e ''perkIcon''])"
    by (intro textual_findTruthy) (auto simp: catalogEntry_def split: jv.splits)
  then show ?thesis
    by (auto simp: extractImage_def intro!: textual_jor) (simp_all add: textual_def)
qed

lemma normalizeImageUrl_textual: "textual v \<Longrightarrow> \<exists>r. normalizeImageUrl v = Inr r"
  by (cases v) (auto simp: textual_def normalizeImageUrl_def)

lemma mapPerk_returns:
  assumes "perkEntry p" and "\<forall>k v. byId k = Some v \<longrightarrow> catalogEntry v"
  shows "\<exists>q. mapPerk u byId p = Inr q"
proof -
  from perkKey_returns [OF assms(1)] obtain key where key: "perkKey u p = Inr key" ..
  have "textual (if truthy (mapGet byId key) then extractImage (mapGet byId key) else JNull)"
  proof (cases "byId key")
    case None
    then show ?thesis by (simp add: mapGet_def textual_def)
  next
    case (Some v)
    with assms(2) have "catalogEntry v" by blast
    from extractImage_textual [OF this] Some show ?thesis
      by (auto simp: mapGet_def) (simp add: textual_def)
  qed
  from normalizeImageUrl_textual [OF this] key show ?thesis
    by (auto simp: mapPerk_def Let_def)
qed

lemma mapPerksWithCatalog_returns:
  assumes "\<forall>p\<in>set perks. perkEntry p" and "\<forall>e\<in>set catalog. catalogEntry e"
  shows "\<exists>out. mapPerksWithCatalog u (JArr perks) catalog = Inr out"
proof -
  from buildById_returns [OF assms(2)] obtain byId
    where b: "buildById u catalog Map.empty = Inr byId" by blast
  have "\<forall>k v. byId k = Some v \<longrightarrow> catalogEntry v"
    using buildById_Some [OF b] assms(2) by fastforce
  with assms(1) have "\<forall>p\<in>set perks. \<exists>q. mapPerk u byId p = Inr q"
    by (auto intro: mapPerk_returns)
  from mapE_returns [OF this] b show ?thesis
    by (simp add: mapPerksWithCatalog_def)
qed





lemma mapPerk_unmatched:
  "perkKey u perk = Inr key \<Longrightarrow> \<not> truthy (mapGet byId key) \<Longrightarrow> \<not> truthy (overrideName key) \<Longrightarrow>
   mapPerk u byId perk = Inr perk"
  by (simp add: mapPerk_def)






text \<open>
  The shape of what the merge returns. For lists of perk entries and of catalog
  entries it returns a list; and whenever it returns a list, that list has the length
  of the perks, its element at each position is the merge of the perk at that
  position, and a perk for which the code finds neither a catalog entry (its key is
  blank or is the key of no entry) nor an override name is passed through as it is.
\<close>

lemma mapPerksWithCatalog_shape:
  "((\<forall>p\<in>set perks. perkEntry p) \<and> (\<forall>e\<in>set catalog. catalogEntry e) \<longrightarrow>
      (\<exists>out. mapPerksWithCatalog u (JArr perks) catalog = Inr out))
   \<and> (\<forall>out. mapPerksWithCatalog u (JArr perks) catalog = Inr out \<longrightarrow>
        length out = length perks
        \<and> (\<exists>byId. buildById u catalog Map.empty = Inr byId
             \<and> (\<forall>i<length perks. mapPerk u byId (perks ! i) = Inr (out ! i)))
        \<and> (\<forall>i<length perks. \<forall>key.
             perkKey u (perks ! i) = Inr key
             \<and> (key = [] \<or> (\<forall>e\<in>set catalog. truthy e \<longrightarrow> catalogKey u e \<noteq> Inr key))
             \<and> \<not> truthy (overrideName key)
             \<longrightarrow> out ! i = perks ! i))"
proof (intro conjI allI impI)
  assume "(\<forall>p\<in>set perks. perkEntry p) \<and> (\<forall>e\<in>set catalog. catalogEntry e)"
  then show "\<exists>out. mapPerksWithCatalog u (JArr perks) catalog = Inr out"
    by (simp add: mapPerksWithCatalog_returns)
next
  fix out
  assume a: "mapPerksWithCatalog u (JArr perks) catalog = Inr out"
  then obtain byId where b: "buildById u catalog Map.empty = Inr byId"
    and m: "mapE (mapPerk u byId) perks = Inr out"
    by (auto simp: mapPerksWithCatalog_def split: sum.splits)
  from mapE_Inr [OF m] have len: "length out = length perks"
    and nth: "\<forall>i<length perks. mapPerk u byId (perks ! i) = Inr (out ! i)"
    by simp_all
  show "length out = length perks" by (rule len)
  show "\<exists>byId. buildById u catalog Map.empty = Inr byId
          \<and> (\<forall>i<length perks. mapPerk u byId (perks ! i) = Inr (out ! i))"
    using b nth by blast
  fix i key
  assume i: "i < length perks"
    and h: "perkKey u (perks ! i) = Inr key
             \<and> (key = [] \<or> (\<forall>e\<in>set catalog. truthy e \<longrightarrow> catalogKey u e \<noteq> Inr key))
             \<and> \<not> truthy (overrideName key)"
  from h have "byId key = None"
    using buildById_None [OF b, of key] buildById_blank [OF b] by auto
  then have "\<not> truthy (mapGet byId key)" by (simp add: mapGet_def)
  with h have "mapPerk u byId (perks ! i) = Inr (perks ! i)"
    by (simp add: mapPerk_unmatched)
  with nth i show "out ! i = perks ! i" by simp
qed

text \<open>
  Claim C2. The perk \<^verbatim>\<open>{id: "constructor", name: "n"}\<close> has no entry in the override
  table, and with an empty catalog it has no catalog match. The claim has it passed
  through unchanged. The merge returns it renamed \<^verbatim>\<open>Object\<close>, with four properties
  added: \<^verbatim>\<open>PERK_OVERRIDES[key]\<close> on the plain object finds the inherited
  \<^verbatim>\<open>constructor\<close>. The list keeps its length and its order.
\<close>

theorem mapPerksWithCatalog_constructor_renamed:
  "map_of PERK_OVERRIDES ''constructor'' = None
   \<and> mapPerksWithCatalog u (JArr [JObj [(''id'', JStr ''constructor''), (''name'', JStr ''n'')]]) []
       = Inr [JObj [(''id'', JStr ''constructor''), (''name'', JStr ''Object''),
                    (''description'', JUndef), (''role'', JUndef), (''character'', JUndef),
                    (''image'', JUndef)]]"
proof -
  have k: "perkKey u (JObj [(''id'', JStr ''constructor''), (''name'', JStr ''n'')])
      = Inr ''constructor''"
    by (simp add: perkKey_def js_defs)
  have o: "overrideName ''constructor'' = JStr ''Object''"
    and t: "map_of PERK_OVERRIDES ''constructor'' = None"
    by (simp_all add: overrideName_def PERK_OVERRIDES_def)
  have "mapPerksWithCatalog u (JArr [JObj [(''id'', JStr ''constructor''), (''name'', JStr ''n'')]]) []
       = Inr [JObj [(''id'', JStr ''constructor''), (''name'', JStr ''Object''),
                    (''description'', JUndef), (''role'', JUndef), (''character'', JUndef),
                    (''image'', JUndef)]]"
    by (simp add: mapPerksWithCatalog_def mapPerk_def k o mapGet_def normalizeImageUrl_def
        js_defs)
  with t show ?thesis by simp
qed



section \<open>Plain enrichment\<close>

lemma mapE_total:
  "\<forall>x\<in>set xs. f x = Inr (g x) \<Longrightarrow> mapE f xs = Inr (map g xs)"
  by (induction xs) auto

lemma withImage_not_nullish: "\<not> nullish p \<Longrightarrow> \<not> nullish (withImage p)"
  by (auto simp: withImage_def Let_def nullish_def)

lemma enrichPayload_no_null:
  assumes "\<forall>p\<in>set (fromArray (fld payload ''perks'')). \<not> nullish p"
  shows "enrichPayload payload =
     Inr (map withImage (fromArray (fld payload ''perks'')),
          filter (\<lambda>r. truthy (fld r ''image''))
            (map (\<lambda>p. recordOf (withImage p)) (fromArray (fld payload ''perks''))))"
proof -
  let ?perks = "fromArray (fld payload ''perks'')"
  have p: "(case fld payload ''perks'' of JArr xs \<Rightarrow> xs | _ \<Rightarrow> []) = ?perks"
    by (simp add: fromArray_def)
  have "\<forall>q\<in>set (map withImage ?perks). imageRecord q = Inr (recordOf q)"
    using assms by (auto simp: imageRecord_def recordOf_def dest: withImage_not_nullish)
  from mapE_total [OF this]
  have "mapE imageRecord (map withImage ?perks) = Inr (map recordOf (map withImage ?perks))" .
  then show ?thesis
    unfolding enrichPayload_def p by (simp add: Let_def comp_def)
qed

lemma findTruthy_falsy: "\<not> truthy (findTruthy xs) \<Longrightarrow> x \<in> set xs \<Longrightarrow> \<not> truthy x"
  by (induction xs) (auto simp: findTruthy_def split: if_splits)

lemma no_image_field: "\<not> truthy (extractImage p) \<Longrightarrow> \<not> truthy (fld p ''image'')"
proof (cases p)
  case (JObj kvs)
  assume "\<not> truthy (extractImage p)"
  with JObj have "\<not> truthy (findTruthy
                  [fld p ''icon'', fld p ''iconUrl'', fld p ''iconPath'',
                   fld p ''image'', fld p ''perkImage'', fld p ''perkIcon''])"
    by (auto simp: extractImage_def jor_def split: if_splits)
  from findTruthy_falsy [OF this, of "fld p ''image''"] show ?thesis by simp
qed simp_all

lemma record_image:
  "fld (recordOf (withImage p)) ''image'' =
     (if truthy (extractImage p) then extractImage p else JNull)"
proof (cases "truthy (extractImage p)")
  case True
  then have "fld (withImage p) ''image'' = extractImage p"
    by (simp add: withImage_def setProp_def update_conv')
  with True show ?thesis by (simp add: recordOf_def jor_def)
next
  case False
  then have "withImage p = p" by (simp add: withImage_def)
  with False no_image_field [OF False] show ?thesis by (simp add: recordOf_def jor_def)
qed

text \<open>
  On a payload whose perks hold no \<^verbatim>\<open>null\<close>, \<^verbatim>\<open>images\<close> has one record for each
  perk with an image, in the order of the perks, and the image of each record is the
  extracted one.
\<close>

lemma enrichPayload_images:
  assumes "\<forall>p\<in>set (fromArray (fld payload ''perks'')). \<not> nullish p"
  shows "enrichPayload payload =
     Inr (map withImage (fromArray (fld payload ''perks'')),
          map (\<lambda>p. recordOf (withImage p))
            (filter (\<lambda>p. truthy (extractImage p)) (fromArray (fld payload ''perks''))))"
    and "\<forall>p\<in>set (fromArray (fld payload ''perks'')). truthy (extractImage p) \<longrightarrow>
           fld (recordOf (withImage p)) ''image'' = extractImage p"
proof -
  have "(\<lambda>r. truthy (fld r ''image'')) \<circ> (\<lambda>p. recordOf (withImage p))
          = (\<lambda>p. truthy (extractImage p))"
    by (auto simp: fun_eq_iff record_image)
  then show "enrichPayload payload =
     Inr (map withImage (fromArray (fld payload ''perks'')),
          map (\<lambda>p. recordOf (withImage p))
            (filter (\<lambda>p. truthy (extractImage p)) (fromArray (fld payload ''perks''))))"
    by (simp add: enrichPayload_no_null [OF assms] filter_map)
  show "\<forall>p\<in>set (fromArray (fld payload ''perks'')). truthy (extractImage p) \<longrightarrow>
           fld (recordOf (withImage p)) ''image'' = extractImage p"
    by (simp add: record_image)
qed

lemma enrichPayload_not_array:
  "\<not> isArray (fld payload ''perks'') \<Longrightarrow> enrichPayload payload = Inr ([], [])"
  by (auto simp: enrichPayload_def isArray_def split: jv.splits)

lemma mapE_throws:
  "q \<in> set xs \<Longrightarrow> nullish q \<Longrightarrow> mapE imageRecord xs = Inl TypeError"
proof (induction xs)
  case Nil
  then show ?case by simp
next
  case (Cons x xs)
  then show ?case
    by (cases "imageRecord x") (auto simp: imageRecord_def split: if_splits)
qed

text \<open>A \<^verbatim>\<open>null\<close> among the perks makes \<^verbatim>\<open>enrichPayload\<close> throw.\<close>

lemma enrichPayload_throws_on_null:
  assumes "fld payload ''perks'' = JArr perks" and "p \<in> set perks" and "nullish p"
  shows "enrichPayload payload = Inl TypeError"
proof -
  have "withImage p = p" using assms(3)
    by (auto simp: withImage_def extractImage_def nullish_def)
  with assms(2) have "p \<in> set (map withImage perks)"
    by (metis image_eqI list.set_map)
  from mapE_throws [OF this assms(3)] show ?thesis
    using assms(1) by (simp add: enrichPayload_def)
qed

lemma extractImage_null: "extractImage JNull = JNull"
  by (simp add: extractImage_def)

text \<open>
  Claim C10. \<^verbatim>\<open>extractImage\<close> answers \<^verbatim>\<open>null\<close> for a perk that is \<^verbatim>\<open>null\<close>, so
  such a perk is one with no image to extract. On the payload
  \<^verbatim>\<open>{perks: [{id: "a", icon: "/a.png"}]}\<close> the images are the one record of that
  perk; with a \<^verbatim>\<open>null\<close> added after it, \<^verbatim>\<open>enrichPayload\<close> throws a \<^verbatim>\<open>TypeError\<close>
  and gives no images at all, where the claim has the \<^verbatim>\<open>null\<close> omitted.
\<close>

theorem enrichPayload_null_perk_throws:
  "enrichPayload (JObj [(''perks'', JArr [JObj [(''id'', JStr ''a''), (''icon'', JStr ''/a.png'')]])])
       = Inr ([JObj [(''id'', JStr ''a''), (''icon'', JStr ''/a.png''), (''image'', JStr ''/a.png'')]],
              [JObj [(''name'', JStr ''a''), (''image'', JStr ''/a.png'')]])
   \<and> enrichPayload (JObj [(''perks'', JArr [JObj [(''id'', JStr ''a''), (''icon'', JStr ''/a.png'')], JNull])])
       = Inl TypeError"
  by (simp add: enrich_defs js_defs Let_def)

section \<open>The scenario of the override without a catalog entry\<close>

lemma scenario_key:
  "perkKey u (JObj [(''id'', JStr ''k28p02''), (''icon'', JStr ''/icons/a.png'')]) = Inr ''k28p02''"
  "overrideName ''k28p02'' = JStr ''Darkness Revealed''"
  by (simp_all add: perkKey_def overrideName_def PERK_OVERRIDES_def js_defs)

lemma scenario_merge:
  "mapPerksWithCatalog u
     (JArr [JObj [(''id'', JStr ''k28p02''), (''icon'', JStr ''/icons/a.png'')]]) []
     = Inr [scenarioMerged]"
  by (simp add: mapPerksWithCatalog_def mapPerk_def scenario_key mapGet_def normalizeImageUrl_def
      scenarioMerged_def js_defs)

lemma scenario_enrich:
  "enrichPayload (JObj [(''perks'', JArr [scenarioMerged])])
     = Inr ([scenarioEnriched],
            [JObj [(''name'', JStr ''Darkness Revealed''), (''image'', JStr ''/icons/a.png'')]])"
  by (simp add: scenarioMerged_def scenarioEnriched_def enrich_defs js_defs Let_def)

lemma scenario_load:
  "fst (loadShrine u [] True 5000 5250 initial
          (emptyCatalog (JObj [(''perks'', JArr
             [JObj [(''id'', JStr ''k28p02''), (''icon'', JStr ''/icons/a.png'')]])])))
     = Inr \<lparr>fetchedAt = 5250,
            sourceUsed = ''https://dbd.tricky.lol/api/shrine'',
            sourceTried = DEFAULT_SOURCES,
            data = JObj [(''perks'', JArr
              [JObj [(''id'', JStr ''k28p02''), (''icon'', JStr ''/icons/a.png'')]])],
            perksWithImages = [scenarioEnriched],
            images = [JObj [(''name'', JStr ''Darkness Revealed''),
                            (''image'', JStr ''/icons/a.png'')]]\<rparr>"
proof -
  let ?p = "JObj [(''perks'', JArr
              [JObj [(''id'', JStr ''k28p02''), (''icon'', JStr ''/icons/a.png'')]])]"
  let ?w1 = "(emptyCatalog ?p)\<lparr>requests := [''https://dbd.tricky.lol/api/shrine'']\<rparr>"
  let ?w2 = "(emptyCatalog ?p)\<lparr>requests :=
      [''https://dbd.tricky.lol/api/shrine'', ''https://dbd.tricky.lol/api/perks'']\<rparr>"
  have f: "fetchFromSources [] (emptyCatalog ?p)
      = (Inr (''https://dbd.tricky.lol/api/shrine'', ?p), ?w1)"
    by (simp add: fetch_defs emptyCatalog_def)
  have g: "fetchPerkCatalog ?w1 = (Inr [], ?w2)"
    by (simp add: fetch_defs emptyCatalog_def)
  have j: "jor (fld ?p ''perks'') (JArr [])
      = JArr [JObj [(''id'', JStr ''k28p02''), (''icon'', JStr ''/icons/a.png'')]]"
    by (simp add: jor_def)
  have c: "catalogEnrich u ?p ?w1 =
      (Inr ([scenarioEnriched],
            [JObj [(''name'', JStr ''Darkness Revealed''), (''image'', JStr ''/icons/a.png'')]]),
       ?w2)"
    unfolding catalogEnrich_def g j by (simp add: scenario_merge scenario_enrich)
  show ?thesis
    unfolding loadShrine_def refresh_def f by (simp add: c candidates_def Let_def)
qed

text \<open>
  Claim C6, as stated, fails. For the shrine perk
  \<^verbatim>\<open>{id: "k28p02", icon: "/icons/a.png"}\<close> and an empty catalog, the perk that
  \<^verbatim>\<open>mapPerksWithCatalog\<close> returns has no image, and the perk that \<^verbatim>\<open>enrichPayload\<close>
  makes of it has the image \<^verbatim>\<open>/icons/a.png\<close>: neither is
  \<^verbatim>\<open>https://dbd.tricky.lol/icons/a.png\<close>.
\<close>

theorem override_scenario_counterexample:
  "mapPerksWithCatalog (\<lambda>s. s)
     (JArr [JObj [(''id'', JStr ''k28p02''), (''icon'', JStr ''/icons/a.png'')]]) []
     = Inr [scenarioMerged]
   \<and> fld scenarioMerged ''image'' \<noteq> JStr ''https://dbd.tricky.lol/icons/a.png''
   \<and> enrichPayload (JObj [(''perks'', JArr [scenarioMerged])])
     = Inr ([scenarioEnriched],
            [JObj [(''name'', JStr ''Darkness Revealed''), (''image'', JStr ''/icons/a.png'')]])
   \<and> fld scenarioEnriched ''image'' \<noteq> JStr ''https://dbd.tricky.lol/icons/a.png''"
  unfolding scenario_merge scenario_enrich
  by (simp add: scenarioMerged_def scenarioEnriched_def)

text \<open>
  Claim C6, amended. For that perk and an empty catalog the merged perk has the name
  \<^verbatim>\<open>Darkness Revealed\<close> and no image; \<^verbatim>\<open>enrichPayload\<close> then gives it the image
  \<^verbatim>\<open>/icons/a.png\<close>, the icon of the perk as it came, and this is the perk of the
  snapshot that \<^verbatim>\<open>loadShrine\<close> builds when the catalog is empty.
  \<^verbatim>\<open>normalizeImageUrl\<close> is applied to the image of a catalog entry only.
\<close>

theorem override_scenario_amended:
  "mapPerksWithCatalog u
     (JArr [JObj [(''id'', JStr ''k28p02''), (''icon'', JStr ''/icons/a.png'')]]) []
     = Inr [scenarioMerged]
   \<and> fld scenarioMerged ''name'' = JStr ''Darkness Revealed''
   \<and> fld scenarioMerged ''image'' = JUndef
   \<and> enrichPayload (JObj [(''perks'', JArr [scenarioMerged])])
     = Inr ([scenarioEnriched],
            [JObj [(''name'', JStr ''Darkness Revealed''), (''image'', JStr ''/icons/a.png'')]])
   \<and> fld scenarioEnriched ''name'' = JStr ''Darkness Revealed''
   \<and> fld scenarioEnriched ''image'' = JStr ''/icons/a.png''
   \<and> fst (loadShrine u [] True 5000 5250 initial
          (emptyCatalog (JObj [(''perks'', JArr
             [JObj [(''id'', JStr ''k28p02''), (''icon'', JStr ''/icons/a.png'')]])])))
     = Inr \<lparr>fetchedAt = 5250,
            sourceUsed = ''https://dbd.tricky.lol/api/shrine'',
            sourceTried = DEFAULT_SOURCES,
            data = JObj [(''perks'', JArr
              [JObj [(''id'', JStr ''k28p02''), (''icon'', JStr ''/icons/a.png'')]])],
            perksWithImages = [scenarioEnriched],
            images = [JObj [(''name'', JStr ''Darkness Revealed''),
                            (''image'', JStr ''/icons/a.png'')]]\<rparr>"
  unfolding scenario_merge scenario_enrich scenario_load
  by (simp add: scenarioMerged_def scenarioEnriched_def)

section \<open>Degrading when the catalog fails\<close>




lemma mapE_mapPerk_no_null:
  "mapE (mapPerk u byId) ps = Inr out \<Longrightarrow> \<forall>p\<in>set ps. \<not> nullish p"
proof (induction ps arbitrary: out)
  case Nil
  then show ?case by simp
next
  case (Cons p ps)
  then show ?case
    by (auto simp: mapPerk_def perkKey_def getp_def split: sum.splits if_splits)
qed

lemma catalogEnrich_returns:
  assumes "catalogEnrich u payload w1 = (Inr r, w2)"
  shows "\<exists>r'. enrichPayload payload = Inr r'"
proof (cases "isArray (fld payload ''perks'')")
  case False
  then show ?thesis by (simp add: enrichPayload_not_array)
next
  case True
  then obtain ps where ps: "fld payload ''perks'' = JArr ps"
    by (auto simp: isArray_def split: jv.splits)
  with assms obtain byId out where "mapE (mapPerk u byId) ps = Inr out"
    by (auto simp: catalogEnrich_def mapPerksWithCatalog_def jor_def
        split: prod.splits sum.splits)
  from mapE_mapPerk_no_null [OF this] ps
  have "\<forall>p\<in>set (fromArray (fld payload ''perks'')). \<not> nullish p"
    by (simp add: fromArray_def)
  from enrichPayload_no_null [OF this] show ?thesis by blast
qed

text \<open>
  After a successful shrine fetch, whether \<^verbatim>\<open>loadShrine\<close> fails does not depend on the
  catalog: it fails exactly when plain enrichment of the payload throws.
\<close>

lemma loadShrine_fails_iff:
  assumes "fetchFromSources SOURCES w = (Inr (url, payload), w1)"
    and "force \<or> cache st = None \<or> CACHE_TIME \<le> now - lastFetch st"
  shows "(\<exists>e. fst (loadShrine u SOURCES force now built st w) = Inl e)
     \<longleftrightarrow> (\<exists>e. enrichPayload payload = Inl e)"
proof -
  obtain r w2 where c: "catalogEnrich u payload w1 = (r, w2)" by force
  show ?thesis
  proof (cases r)
    case (Inl e)
    with assms c show ?thesis
      by (auto simp: loadShrine_def refresh_def Let_def split: sum.splits)
  next
    case (Inr x)
    with c catalogEnrich_returns [of u payload w1 x w2] obtain y where "enrichPayload payload = Inr y"
      by auto
    with assms c Inr show ?thesis
      by (auto simp: loadShrine_def refresh_def Let_def split: sum.splits prod.splits)
  qed
qed

end
